theory Spec2Isabelle
  imports Main "HOL-Library.Word"
begin

unbundle bit_operations_syntax

section \<open>Data model\<close>

text \<open>
  The program is the class \<open>SecurePasswordManager\<close> of \<open>Passtest.py\<close>. Python
  \<open>bytes\<close> are lists of 8-bit words, Python \<open>str\<close> is \<open>string\<close>, a \<open>dict\<close> is
  a map, and an exception is the left injection of a sum.
\<close>

type_synonym bytes = "8 word list"

text \<open>
  The operating system's random source, read by \<open>os.urandom\<close> and by
  \<open>secrets.choice\<close>: an unbounded tape of numbers, consumed from the front.
  \<open>os.urandom(n)\<close> takes the next \<open>n\<close> draws as bytes; \<open>secrets.choice(seq)\<close> takes
  one draw and indexes \<open>seq\<close> with it modulo the length.
\<close>

type_synonym tape = "nat \<Rightarrow> nat"

datatype py_exn = ValueError | InvalidTag | Binascii_Error | TypeError | KeyError

text \<open>
  The functions of the packages \<open>cryptography\<close>, \<open>base64\<close> and of \<open>str\<close>/\<open>bytes\<close> that
  the class calls are not code of the repository; they are parameters of the model.
  \<^item> \<open>pbkdf2_hmac length salt iterations password\<close> is
    \<open>PBKDF2HMAC(SHA256(), length, salt, iterations).derive(password)\<close>;
  \<^item> \<open>gcm_encrypt key iv data\<close> is the pair (ciphertext, tag) of an AES-GCM encryptor;
  \<^item> \<open>gcm_decrypt key iv tag ciphertext\<close> is the plaintext of an AES-GCM decryptor, or
    \<open>None\<close> when \<open>finalize\<close> raises \<open>InvalidTag\<close>;
  \<^item> \<open>b64encode x\<close> is \<open>base64.b64encode(x).decode('ascii')\<close> and \<open>b64decode s\<close> is
    \<open>base64.b64decode(s.encode('ascii'))\<close>, \<open>None\<close> when that raises;
  \<^item> \<open>str_encode s\<close> is \<open>s.encode()\<close> and \<open>bytes_decode b\<close> is \<open>b.decode()\<close>, \<open>None\<close>
    when that raises; a \<open>string\<close> stands for a Python string that UTF-8 can encode.
  Writing the file in \<open>save_database\<close> is taken to succeed.
\<close>

record extlib =
  pbkdf2_hmac :: "nat \<Rightarrow> bytes \<Rightarrow> nat \<Rightarrow> bytes \<Rightarrow> bytes"
  gcm_encrypt :: "bytes \<Rightarrow> bytes \<Rightarrow> bytes \<Rightarrow> bytes \<times> bytes"
  gcm_decrypt :: "bytes \<Rightarrow> bytes \<Rightarrow> bytes \<Rightarrow> bytes \<Rightarrow> bytes option"
  b64encode :: "bytes \<Rightarrow> string"
  b64decode :: "string \<Rightarrow> bytes option"
  str_encode :: "string \<Rightarrow> bytes"
  bytes_decode :: "bytes \<Rightarrow> string option"

text \<open>
  The argument checks that the constructors \<open>algorithms.AES(key)\<close> and
  \<open>modes.GCM(iv, tag)\<close> perform before any cryptography happens; each raises
  \<open>ValueError\<close>: the key has 128, 192 or 256 bits, the initialization vector has 8 to
  128 bytes, a given tag has at least \<open>min_tag_length = 16\<close> bytes.
\<close>

definition aes_key_ok :: "bytes \<Rightarrow> bool" where
  "aes_key_ok key \<longleftrightarrow> length key = 16 \<or> length key = 24 \<or> length key = 32"

definition gcm_iv_ok :: "bytes \<Rightarrow> bool" where
  "gcm_iv_ok iv \<longleftrightarrow> 8 \<le> length iv \<and> length iv \<le> 128"

definition gcm_tag_ok :: "bytes \<Rightarrow> bool" where
  "gcm_tag_ok tag \<longleftrightarrow> 16 \<le> length tag"

text \<open>What the proofs assume of the libraries.\<close>

definition gcm_ok :: "extlib \<Rightarrow> bool" where
  "gcm_ok L \<longleftrightarrow>
     (\<forall>key iv data. aes_key_ok key \<longrightarrow> gcm_iv_ok iv \<longrightarrow>
        length (fst (gcm_encrypt L key iv data)) = length data \<and>
        length (snd (gcm_encrypt L key iv data)) = 16 \<and>
        gcm_decrypt L key iv (snd (gcm_encrypt L key iv data))
          (fst (gcm_encrypt L key iv data)) = Some data)"

definition kdf_ok :: "extlib \<Rightarrow> bool" where
  "kdf_ok L \<longleftrightarrow> (\<forall>n salt it pw. length (pbkdf2_hmac L n salt it pw) = n)"

definition b64_ok :: "extlib \<Rightarrow> bool" where
  "b64_ok L \<longleftrightarrow> (\<forall>x. b64decode L (b64encode L x) = Some x)"

definition utf8_ok :: "extlib \<Rightarrow> bool" where
  "utf8_ok L \<longleftrightarrow> (\<forall>s. bytes_decode L (str_encode L s) = Some s)"

section \<open>Random source, key derivation and the envelope cipher\<close>

definition urandom :: "nat \<Rightarrow> tape \<Rightarrow> bytes \<times> tape" where
  "urandom n t = (map (\<lambda>i. of_nat (t i)) [0..<n], (\<lambda>i. t (i + n)))"

definition secrets_choice :: "'a list \<Rightarrow> tape \<Rightarrow> 'a \<times> tape" where
  "secrets_choice seq t = (seq ! (t 0 mod length seq), (\<lambda>i. t (Suc i)))"

definition generate_salt :: "nat \<Rightarrow> tape \<Rightarrow> bytes \<times> tape" where
  "generate_salt len t = urandom len t"

definition derive_key :: "extlib \<Rightarrow> string \<Rightarrow> bytes \<Rightarrow> nat \<Rightarrow> bytes" where
  "derive_key L password salt iterations =
     pbkdf2_hmac L 32 salt iterations (str_encode L password)"

definition encrypt_data :: "extlib \<Rightarrow> bytes \<Rightarrow> bytes \<Rightarrow> tape \<Rightarrow> (py_exn + bytes) \<times> tape" where
  "encrypt_data L data key t =
     (let (iv, t') = urandom 16 t in
      if \<not> aes_key_ok key then (Inl ValueError, t')
      else if \<not> gcm_iv_ok iv then (Inl ValueError, t')
      else (let (encrypted, tag) = gcm_encrypt L key iv data
            in (Inr (iv @ tag @ encrypted), t')))"

definition decrypt_data :: "extlib \<Rightarrow> bytes \<Rightarrow> bytes \<Rightarrow> py_exn + bytes" where
  "decrypt_data L encrypted_data key =
     (let iv = take 16 encrypted_data;
          tag = take 16 (drop 16 encrypted_data);
          ciphertext = drop 32 encrypted_data
      in if \<not> aes_key_ok key then Inl ValueError
         else if \<not> gcm_iv_ok iv \<or> \<not> gcm_tag_ok tag then Inl ValueError
         else (case gcm_decrypt L key iv tag ciphertext of
                 None \<Rightarrow> Inl InvalidTag
               | Some data \<Rightarrow> Inr data))"

section \<open>Accounts and the store\<close>

datatype recovery_entry = RecoveryEntry (entry_salt: string) (encrypted_key: string)

record account =
  salt :: string
  encrypted_master_key :: string
  passwords :: "string \<rightharpoonup> string"
  recovery_data :: "recovery_entry list"

text \<open>
  The state of a manager: \<open>users\<close> is the dictionary \<open>self.users\<close>, \<open>db_file\<close> is the
  content of the file that \<open>save_database\<close> last wrote, \<open>entropy\<close> is the random source.
\<close>

record world =
  users :: "string \<rightharpoonup> account"
  db_file :: "string \<rightharpoonup> account"
  entropy :: tape

definition save_database :: "world \<Rightarrow> world" where
  "save_database s = s\<lparr>db_file := users s\<rparr>"

subsection \<open>create_account\<close>

text \<open>\<open>''.join(secrets.choice("0123456789") for _ in range(n))\<close>\<close>

fun gen_code :: "nat \<Rightarrow> tape \<Rightarrow> string \<times> tape" where
  "gen_code 0 t = ([], t)"
| "gen_code (Suc n) t =
     (let (c, t1) = secrets_choice ''0123456789'' t;
          (cs, t2) = gen_code n t1
      in (c # cs, t2))"

text \<open>The loop \<open>for _ in range(n)\<close> of \<open>create_account\<close>, with its two accumulators.\<close>

fun recovery_loop ::
  "extlib \<Rightarrow> bytes \<Rightarrow> nat \<Rightarrow> string list \<Rightarrow> recovery_entry list \<Rightarrow> tape \<Rightarrow>
   (py_exn + string list \<times> recovery_entry list) \<times> tape" where
  "recovery_loop L master_key 0 recovery_codes rdata t = (Inr (recovery_codes, rdata), t)"
| "recovery_loop L master_key (Suc n) recovery_codes rdata t =
     (let (code, t1) = gen_code 8 t;
          (recovery_salt, t2) = generate_salt 16 t1;
          recovery_key = derive_key L code recovery_salt 100000;
          (r, t3) = encrypt_data L master_key recovery_key t2
      in case r of
           Inl e \<Rightarrow> (Inl e, t3)
         | Inr ek \<Rightarrow>
             recovery_loop L master_key n (recovery_codes @ [code])
               (rdata @ [RecoveryEntry (b64encode L recovery_salt) (b64encode L ek)]) t3)"

definition create_account ::
  "extlib \<Rightarrow> world \<Rightarrow> string \<Rightarrow> string \<Rightarrow> (py_exn + bool \<times> string \<times> string list) \<times> world" where
  "create_account L s username master_password =
     (if username \<in> dom (users s) then (Inr (False, ''Username already exists'', []), s)
      else
        (let (salt0, t1) = generate_salt 16 (entropy s);
             encryption_key = derive_key L master_password salt0 100000;
             (master_key, t2) = urandom 32 t1;
             (r, t3) = encrypt_data L master_key encryption_key t2
         in case r of
              Inl e \<Rightarrow> (Inl e, s\<lparr>entropy := t3\<rparr>)
            | Inr emk \<Rightarrow>
                (case recovery_loop L master_key 10 [] [] t3 of
                   (Inl e, t4) \<Rightarrow> (Inl e, s\<lparr>entropy := t4\<rparr>)
                 | (Inr (recovery_codes, rdata), t4) \<Rightarrow>
                     (Inr (True, ''Account created successfully'', recovery_codes),
                      save_database
                        (s\<lparr>entropy := t4,
                           users := (users s)(username \<mapsto>
                             \<lparr>salt = b64encode L salt0,
                              encrypted_master_key = b64encode L emk,
                              passwords = Map.empty,
                              recovery_data = rdata\<rparr>)\<rparr>)))))"

subsection \<open>login\<close>

definition login ::
  "extlib \<Rightarrow> world \<Rightarrow> string \<Rightarrow> string \<Rightarrow> (py_exn + bool \<times> string \<times> bytes option) \<times> world" where
  "login L s username master_password =
     (case users s username of
        None \<Rightarrow> (Inr (False, ''User not found'', None), s)
      | Some user_data \<Rightarrow>
          (case b64decode L (salt user_data) of
             None \<Rightarrow> (Inl Binascii_Error, s)
           | Some salt0 \<Rightarrow>
               (let encryption_key = derive_key L master_password salt0 100000
                in case b64decode L (encrypted_master_key user_data) of
                     None \<Rightarrow> (Inl Binascii_Error, s)
                   | Some emk \<Rightarrow>
                       (case decrypt_data L emk encryption_key of
                          Inr master_key \<Rightarrow> (Inr (True, ''Login successful'', Some master_key), s)
                        | Inl _ \<Rightarrow> (Inr (False, ''Invalid password'', None), s)))))"

subsection \<open>add_password and get_password\<close>

definition add_password ::
  "extlib \<Rightarrow> world \<Rightarrow> string \<Rightarrow> string \<Rightarrow> string \<Rightarrow> string \<Rightarrow> (py_exn + bool \<times> string) \<times> world" where
  "add_password L s username master_password service password =
     (if username \<notin> dom (users s) then (Inr (False, ''User not found''), s)
      else
        (case login L s username master_password of
           (Inl e, s1) \<Rightarrow> (Inl e, s1)
         | (Inr (success, message, master_key), s1) \<Rightarrow>
             if \<not> success then (Inr (success, message), s1)
             else
               (case master_key of
                  None \<Rightarrow> (Inl TypeError, s1)
                | Some mk \<Rightarrow>
                    (let (r, t1) = encrypt_data L (str_encode L password) mk (entropy s1)
                     in case r of
                          Inl e \<Rightarrow> (Inl e, s1\<lparr>entropy := t1\<rparr>)
                        | Inr encrypted_password \<Rightarrow>
                            (case users s1 username of
                               None \<Rightarrow> (Inl KeyError, s1\<lparr>entropy := t1\<rparr>)
                             | Some user_data \<Rightarrow>
                                 (Inr (True, ''Password for '' @ service @ '' added successfully''),
                                  save_database
                                    (s1\<lparr>entropy := t1,
                                        users := (users s1)(username \<mapsto>
                                          user_data\<lparr>passwords := (passwords user_data)
                                            (service \<mapsto> b64encode L encrypted_password)\<rparr>)\<rparr>)))))))"

definition get_password ::
  "extlib \<Rightarrow> world \<Rightarrow> string \<Rightarrow> string \<Rightarrow> string \<Rightarrow> (py_exn + bool \<times> string \<times> string option) \<times> world" where
  "get_password L s username master_password service =
     (if username \<notin> dom (users s) then (Inr (False, ''User not found'', None), s)
      else
        (case login L s username master_password of
           (Inl e, s1) \<Rightarrow> (Inl e, s1)
         | (Inr (success, message, master_key), s1) \<Rightarrow>
             if \<not> success then (Inr (success, message, None), s1)
             else
               (case users s1 username of
                  None \<Rightarrow> (Inl KeyError, s1)
                | Some user_data \<Rightarrow>
                    (case passwords user_data service of
                       None \<Rightarrow> (Inr (False, ''No password stored for '' @ service, None), s1)
                     | Some stored \<Rightarrow>
                         (case b64decode L stored of
                            None \<Rightarrow> (Inl Binascii_Error, s1)
                          | Some encrypted_password \<Rightarrow>
                              (case master_key of
                                 None \<Rightarrow> (Inr (False, ''Failed to decrypt password'', None), s1)
                               | Some mk \<Rightarrow>
                                   (case decrypt_data L encrypted_password mk of
                                      Inl _ \<Rightarrow> (Inr (False, ''Failed to decrypt password'', None), s1)
                                    | Inr decrypted_password \<Rightarrow>
                                        (case bytes_decode L decrypted_password of
                                           None \<Rightarrow> (Inr (False, ''Failed to decrypt password'', None), s1)
                                         | Some p \<Rightarrow>
                                             (Inr (True, ''Password for '' @ service, Some p), s1)))))))))"

subsection \<open>recover_account\<close>

text \<open>
  The loop \<open>for recovery_entry in user_data['recovery_data']\<close>. \<open>user_data\<close> is the
  account's dictionary, read before the loop; the loop writes to it only in the iteration
  that returns. An exception raised inside the \<open>try\<close> block goes on to the next entry;
  the two \<open>b64decode\<close> calls stand before the \<open>try\<close>.
\<close>

fun recover_scan ::
  "extlib \<Rightarrow> world \<Rightarrow> string \<Rightarrow> account \<Rightarrow> string \<Rightarrow> string \<Rightarrow> recovery_entry list \<Rightarrow>
   (py_exn + bool \<times> string \<times> bytes option) \<times> world" where
  "recover_scan L s username user_data recovery_code new_master_password [] =
     (Inr (False, ''Invalid recovery code'', None), s)"
| "recover_scan L s username user_data recovery_code new_master_password (recovery_entry # rest) =
     (case b64decode L (entry_salt recovery_entry) of
        None \<Rightarrow> (Inl Binascii_Error, s)
      | Some recovery_salt \<Rightarrow>
          (let recovery_key = derive_key L recovery_code recovery_salt 100000
           in case b64decode L (encrypted_key recovery_entry) of
                None \<Rightarrow> (Inl Binascii_Error, s)
              | Some ek \<Rightarrow>
                  (case decrypt_data L ek recovery_key of
                     Inl _ \<Rightarrow>
                       recover_scan L s username user_data recovery_code new_master_password rest
                   | Inr master_key \<Rightarrow>
                       (let (new_salt, t1) = generate_salt 16 (entropy s);
                            new_encryption_key = derive_key L new_master_password new_salt 100000;
                            (r, t2) = encrypt_data L master_key new_encryption_key t1
                        in case r of
                             Inl _ \<Rightarrow>
                               recover_scan L (s\<lparr>entropy := t2\<rparr>) username user_data
                                 recovery_code new_master_password rest
                           | Inr new_emk \<Rightarrow>
                               (Inr (True, ''Account recovered successfully'', Some master_key),
                                save_database
                                  (s\<lparr>entropy := t2,
                                     users := (users s)(username \<mapsto>
                                       user_data\<lparr>salt := b64encode L new_salt,
                                         encrypted_master_key := b64encode L new_emk,
                                         recovery_data :=
                                           remove1 recovery_entry (recovery_data user_data)\<rparr>)\<rparr>))))))"

definition recover_account ::
  "extlib \<Rightarrow> world \<Rightarrow> string \<Rightarrow> string \<Rightarrow> string \<Rightarrow> (py_exn + bool \<times> string \<times> bytes option) \<times> world" where
  "recover_account L s username recovery_code new_master_password =
     (case users s username of
        None \<Rightarrow> (Inr (False, ''User not found'', None), s)
      | Some user_data \<Rightarrow>
          recover_scan L s username user_data recovery_code new_master_password
            (recovery_data user_data))"

subsection \<open>What a recovery code does to one entry\<close>

text \<open>
  The first half of an iteration of the scan: both fields of the entry are decoded and the
  trial decryption runs. \<open>Inl Binascii_Error\<close> means that a field is not base64 (raised
  before the \<open>try\<close>), any other \<open>Inl\<close> that the trial decryption raised, \<open>Inr\<close> that the
  code opens the entry.
\<close>

definition open_entry :: "extlib \<Rightarrow> string \<Rightarrow> recovery_entry \<Rightarrow> py_exn + bytes" where
  "open_entry L code e =
     (case b64decode L (entry_salt e) of
        None \<Rightarrow> Inl Binascii_Error
      | Some rs \<Rightarrow>
          (case b64decode L (encrypted_key e) of
             None \<Rightarrow> Inl Binascii_Error
           | Some ek \<Rightarrow> decrypt_data L ek (derive_key L code rs 100000)))"

definition entry_rejected :: "extlib \<Rightarrow> string \<Rightarrow> recovery_entry \<Rightarrow> bool" where
  "entry_rejected L code e \<longleftrightarrow>
     (case open_entry L code e of Inl x \<Rightarrow> x \<noteq> Binascii_Error | Inr _ \<Rightarrow> False)"

definition is_code :: "string \<Rightarrow> bool" where
  "is_code c \<longleftrightarrow> length c = 8 \<and> list_all (\<lambda>ch. ch \<in> set ''0123456789'') c"

section \<open>A small instance of the library interface\<close>

text \<open>
  An instance of the interface that meets the assumptions above; the concrete
  evaluations below run the model on it.
\<close>

definition char_to_byte :: "char \<Rightarrow> 8 word" where
  "char_to_byte c = of_nat (of_char c)"

definition byte_to_char :: "8 word \<Rightarrow> char" where
  "byte_to_char b = char_of (unat b)"

definition xor_bytes :: "8 word \<Rightarrow> bytes \<Rightarrow> bytes" where
  "xor_bytes k xs = map (\<lambda>b. b XOR k) xs"

definition sample_lib :: extlib where
  "sample_lib =
     \<lparr> pbkdf2_hmac = (\<lambda>n salt it pw. take n (pw @ salt @ replicate n 0)),
       gcm_encrypt = (\<lambda>key iv data. (xor_bytes (hd key) data, take 16 key)),
       gcm_decrypt = (\<lambda>key iv tag ct.
          if tag = take 16 key then Some (xor_bytes (hd key) ct) else None),
       b64encode = map byte_to_char,
       b64decode = (\<lambda>s. Some (map char_to_byte s)),
       str_encode = map char_to_byte,
       bytes_decode = (\<lambda>b. Some (map byte_to_char b)) \<rparr>"

text \<open>
  The envelope and the recovery entry that the sample library produces for given random
  bytes, and two stores: \<open>empty_world\<close> has no account, and a random source whose every
  draw is a multiple of ten; \<open>bob_world\<close> holds the account of bob, master password
  \<open>hunter2\<close>, with the two recovery codes \<open>11111111\<close> and \<open>22222222\<close>.
\<close>

definition sample_seal :: "string \<Rightarrow> bytes \<Rightarrow> bytes \<Rightarrow> bytes \<Rightarrow> bytes" where
  "sample_seal secret sl iv data =
     (let key = derive_key sample_lib secret sl 100000
      in iv @ snd (gcm_encrypt sample_lib key iv data) @ fst (gcm_encrypt sample_lib key iv data))"

definition sample_entry :: "string \<Rightarrow> bytes \<Rightarrow> bytes \<Rightarrow> bytes \<Rightarrow> recovery_entry" where
  "sample_entry code sl iv data =
     RecoveryEntry (b64encode sample_lib sl) (b64encode sample_lib (sample_seal code sl iv data))"

definition bob_key :: bytes where
  "bob_key = replicate 32 5"

definition bob_account :: account where
  "bob_account =
     \<lparr>salt = b64encode sample_lib (replicate 16 1),
      encrypted_master_key =
        b64encode sample_lib (sample_seal ''hunter2'' (replicate 16 1) (replicate 16 2) bob_key),
      passwords = Map.empty,
      recovery_data =
        [sample_entry ''11111111'' (replicate 16 3) (replicate 16 4) bob_key,
         sample_entry ''22222222'' (replicate 16 6) (replicate 16 7) bob_key]\<rparr>"

definition tape0 :: tape where
  "tape0 = (\<lambda>i. 10 * i)"

definition empty_world :: world where
  "empty_world = \<lparr>users = Map.empty, db_file = Map.empty, entropy = tape0\<rparr>"

definition bob_world :: world where
  "bob_world = \<lparr>users = [''bob'' \<mapsto> bob_account], db_file = [''bob'' \<mapsto> bob_account],
     entropy = tape0\<rparr>"

text \<open>
  Further stores: \<open>bob_short_world\<close> is \<open>bob_world\<close> with bob's envelope cut to 31
  bytes; \<open>bob_github_world\<close> is \<open>bob_world\<close> after bob has stored a password for
  github; \<open>bob_recovered_world\<close> is \<open>bob_world\<close> after a recovery with the first code;
  \<open>alice_world\<close> is \<open>empty_world\<close> after alice has created her account, and
  \<open>alice_recovered_world\<close> the same after a recovery that sets the master password she
  had before.
\<close>

definition bob_short_world :: world where
  "bob_short_world = bob_world\<lparr>users :=
     [''bob'' \<mapsto> bob_account\<lparr>encrypted_master_key := b64encode sample_lib (replicate 31 0)\<rparr>]\<rparr>"

definition bob_github_world :: world where
  "bob_github_world = snd (add_password sample_lib bob_world ''bob'' ''hunter2'' ''github'' ''s3cr3t'')"

definition bob_recovered_world :: world where
  "bob_recovered_world = snd (recover_account sample_lib bob_world ''bob'' ''11111111'' ''newpw'')"

definition alice_key :: bytes where
  "alice_key = fst (urandom 32 (snd (generate_salt 16 tape0)))"

definition alice_world :: world where
  "alice_world = snd (create_account sample_lib empty_world ''alice'' ''pw1'')"

definition alice_recovered_world :: world where
  "alice_recovered_world = snd (recover_account sample_lib alice_world ''alice'' ''00000000'' ''pw1'')"

section \<open>Library facts\<close>

lemma urandom_length: "length (fst (urandom n t)) = n"
  by (simp add: urandom_def)

lemma xor_bytes_twice: "xor_bytes k (xor_bytes k xs) = xs"
  by (induction xs) (simp_all add: xor_bytes_def xor.assoc)

lemma xor_bytes_length: "length (xor_bytes k xs) = length xs"
  by (simp add: xor_bytes_def)

lemma sample_gcm_ok: "gcm_ok sample_lib"
  by (auto simp: gcm_ok_def sample_lib_def aes_key_ok_def xor_bytes_twice xor_bytes_length)

lemma byte_char_roundtrip: "char_to_byte (byte_to_char b) = b"
proof -
  have "unat b < 256"
    using unsigned_less [of b, where ?'a = nat] by simp
  then show ?thesis
    by (simp add: char_to_byte_def byte_to_char_def of_char_of)
qed

lemma char_byte_roundtrip: "byte_to_char (char_to_byte c) = c"
  by (simp add: char_to_byte_def byte_to_char_def unat_of_nat take_bit_eq_mod)

lemma sample_kdf_ok: "kdf_ok sample_lib"
  by (auto simp: kdf_ok_def sample_lib_def)

lemma sample_b64_ok: "b64_ok sample_lib"
  by (simp add: b64_ok_def sample_lib_def comp_def byte_char_roundtrip)

lemma sample_utf8_ok: "utf8_ok sample_lib"
  by (simp add: utf8_ok_def sample_lib_def comp_def char_byte_roundtrip)


section \<open>The envelope cipher\<close>

lemma urandom_snd: "snd (urandom n t) = (\<lambda>i. t (i + n))"
  by (simp add: urandom_def)

lemma derive_key_length: "kdf_ok L \<Longrightarrow> length (derive_key L pw sl it) = 32"
  by (simp add: kdf_ok_def derive_key_def)

lemma derive_key_ok: "kdf_ok L \<Longrightarrow> aes_key_ok (derive_key L pw sl it)"
  by (simp add: derive_key_length aes_key_ok_def)

text \<open>Sealing under a valid key succeeds, and the envelope opens under the same key.\<close>

lemma seal_open:
  assumes "gcm_ok L" and "aes_key_ok k"
  shows "\<exists>env. encrypt_data L p k t = (Inr env, snd (urandom 16 t)) \<and>
           decrypt_data L env k = Inr p \<and> length env = length p + 32"
proof -
  obtain iv t' where u: "urandom 16 t = (iv, t')"
    by (cases "urandom 16 t")
  have liv: "length iv = 16"
    using urandom_length [of 16 t] u by simp
  have iv: "gcm_iv_ok iv"
    using liv by (simp add: gcm_iv_ok_def)
  obtain ct tag where g: "gcm_encrypt L k iv p = (ct, tag)"
    by (cases "gcm_encrypt L k iv p")
  from assms iv g have lct: "length ct = length p" and ltag: "length tag = 16"
    and dec: "gcm_decrypt L k iv tag ct = Some p"
    unfolding gcm_ok_def by (metis fst_conv snd_conv)+
  have enc: "encrypt_data L p k t = (Inr (iv @ tag @ ct), snd (urandom 16 t))"
    by (simp add: encrypt_data_def u assms(2) iv g)
  have "decrypt_data L (iv @ tag @ ct) k = Inr p"
    by (simp add: decrypt_data_def assms(2) iv liv ltag gcm_tag_ok_def dec)
  moreover have "length (iv @ tag @ ct) = length p + 32"
    by (simp add: liv ltag lct)
  ultimately show ?thesis
    using enc by blast
qed

lemma decrypt_data_exn:
  "decrypt_data L e k = Inl x \<Longrightarrow> x = ValueError \<or> x = InvalidTag"
  by (auto simp: decrypt_data_def Let_def split: if_splits option.splits)

text \<open>
  C1. For every 32-byte key \<open>k\<close> and every plaintext \<open>p\<close>, sealing \<open>p\<close> under \<open>k\<close>
  produces an envelope, and opening that envelope with the same key returns exactly \<open>p\<close>:
  \<open>decrypt_data(encrypt_data(p, k), k) == p\<close>.
\<close>

theorem encrypt_decrypt_roundtrip:
  assumes "gcm_ok L" and "length k = 32"
  shows "\<exists>env t'. encrypt_data L p k t = (Inr env, t') \<and> decrypt_data L env k = Inr p"
proof -
  have "aes_key_ok k"
    using assms(2) by (simp add: aes_key_ok_def)
  from seal_open [OF assms(1) this, of p t] show ?thesis
    by blast
qed

theorem encrypt_decrypt_roundtrip_witness:
  "gcm_ok sample_lib \<and> length (replicate 32 (7 :: 8 word)) = 32 \<and>
   (\<exists>env t'. encrypt_data sample_lib [1, 2, 3] (replicate 32 7) tape0 = (Inr env, t') \<and>
      decrypt_data sample_lib env (replicate 32 7) = Inr [1, 2, 3])"
  using encrypt_decrypt_roundtrip [of sample_lib "replicate 32 7" "[1, 2, 3]" tape0]
    sample_gcm_ok
  by simp

text \<open>
  C10. For every key and every plaintext \<open>p\<close>, the envelope that \<open>encrypt_data\<close> produces
  has exactly \<open>len(p) + 32\<close> bytes: a 16-byte nonce, a 16-byte tag and a ciphertext as long
  as the plaintext, with no padding.
\<close>

theorem envelope_length:
  assumes "gcm_ok L" and "encrypt_data L p k t = (Inr env, t')"
  shows "length env = length p + 32 \<and> length (take 16 env) = 16 \<and>
         length (take 16 (drop 16 env)) = 16 \<and> length (drop 32 env) = length p"
proof -
  have key: "aes_key_ok k"
    using assms(2) by (auto simp: encrypt_data_def Let_def split: prod.splits if_splits)
  from seal_open [OF assms(1) key, of p t] assms(2)
  have "length env = length p + 32"
    by auto
  then show ?thesis
    by simp
qed

theorem envelope_length_witness:
  "\<exists>env t'. encrypt_data sample_lib [1, 2, 3] (replicate 32 7) tape0 = (Inr env, t') \<and>
     length env = 35 \<and> length (drop 32 env) = 3"
proof -
  have "aes_key_ok (replicate 32 7)"
    by (simp add: aes_key_ok_def)
  from seal_open [OF sample_gcm_ok this, of "[1, 2, 3]" tape0]
  obtain env where e: "encrypt_data sample_lib [1, 2, 3] (replicate 32 7) tape0
      = (Inr env, snd (urandom 16 tape0))"
    by blast
  from envelope_length [OF sample_gcm_ok e] e show ?thesis
    by simp
qed

section \<open>Login\<close>

lemma short_envelope_value_error:
  "length e < 32 \<Longrightarrow> decrypt_data L e k = Inl ValueError"
  by (auto simp: decrypt_data_def Let_def gcm_tag_ok_def)

lemma login_known:
  assumes "users s u = Some a" and "b64decode L (salt a) = Some sl"
    and "b64decode L (encrypted_master_key a) = Some emk"
  shows "login L s u pw =
     ((case decrypt_data L emk (derive_key L pw sl 100000) of
         Inr mk \<Rightarrow> Inr (True, ''Login successful'', Some mk)
       | Inl _ \<Rightarrow> Inr (False, ''Invalid password'', None)), s)"
  using assms by (simp add: login_def Let_def split: sum.splits)

lemma login_frame: "snd (login L s u pw) = s"
  by (simp add: login_def Let_def split: option.splits sum.splits)

section \<open>The recovery scan\<close>

lemma entry_trichotomy:
  "entry_rejected L c e \<or> open_entry L c e = Inl Binascii_Error \<or> (\<exists>mk. open_entry L c e = Inr mk)"
  by (cases "open_entry L c e") (auto simp: entry_rejected_def)

lemma scan_Cons_rejected:
  assumes "entry_rejected L c e"
  shows "recover_scan L s u a c npw (e # rest) = recover_scan L s u a c npw rest"
proof -
  from assms obtain x where x: "open_entry L c e = Inl x" "x \<noteq> Binascii_Error"
    by (cases "open_entry L c e") (auto simp: entry_rejected_def)
  then obtain rs ek where d: "b64decode L (entry_salt e) = Some rs"
      "b64decode L (encrypted_key e) = Some ek"
      "decrypt_data L ek (derive_key L c rs 100000) = Inl x"
    by (auto simp: open_entry_def split: option.splits)
  then show ?thesis
    by (simp add: Let_def)
qed

lemma scan_Cons_undecodable:
  assumes "open_entry L c e = Inl Binascii_Error"
  shows "recover_scan L s u a c npw (e # rest) = (Inl Binascii_Error, s)"
proof -
  have "b64decode L (entry_salt e) = None \<or>
        (\<exists>rs. b64decode L (entry_salt e) = Some rs \<and> b64decode L (encrypted_key e) = None)"
    using assms decrypt_data_exn [of L _ _ Binascii_Error]
    by (auto simp: open_entry_def split: option.splits)
  then show ?thesis
    by (auto simp: Let_def)
qed

lemma scan_Cons_hit:
  assumes "gcm_ok L" and "kdf_ok L" and "open_entry L c e = Inr mk"
  shows "\<exists>ns nemk t2. recover_scan L s u a c npw (e # rest) =
     (Inr (True, ''Account recovered successfully'', Some mk),
      save_database (s\<lparr>entropy := t2, users := (users s)(u \<mapsto>
         a\<lparr>salt := b64encode L ns, encrypted_master_key := b64encode L nemk,
           recovery_data := remove1 e (recovery_data a)\<rparr>)\<rparr>)) \<and>
     decrypt_data L nemk (derive_key L npw ns 100000) = Inr mk"
proof -
  from assms(3) obtain rs ek where d: "b64decode L (entry_salt e) = Some rs"
      "b64decode L (encrypted_key e) = Some ek"
      "decrypt_data L ek (derive_key L c rs 100000) = Inr mk"
    by (auto simp: open_entry_def split: option.splits)
  obtain ns t1 where g: "generate_salt 16 (entropy s) = (ns, t1)"
    by (cases "generate_salt 16 (entropy s)")
  have kk: "aes_key_ok (derive_key L npw ns 100000)"
    by (rule derive_key_ok [OF assms(2)])
  from seal_open [OF assms(1) kk, of mk t1]
  obtain nemk where e: "encrypt_data L mk (derive_key L npw ns 100000) t1 = (Inr nemk, snd (urandom 16 t1))"
    and o: "decrypt_data L nemk (derive_key L npw ns 100000) = Inr mk"
    by blast
  have "recover_scan L s u a c npw (e # rest) =
     (Inr (True, ''Account recovered successfully'', Some mk),
      save_database (s\<lparr>entropy := snd (urandom 16 t1), users := (users s)(u \<mapsto>
         a\<lparr>salt := b64encode L ns, encrypted_master_key := b64encode L nemk,
           recovery_data := remove1 e (recovery_data a)\<rparr>)\<rparr>))"
    by (simp add: d g e Let_def)
  with o show ?thesis
    by blast
qed

lemma scan_skip:
  "\<forall>x\<in>set pre. entry_rejected L c x \<Longrightarrow>
   recover_scan L s u a c npw (pre @ rest) = recover_scan L s u a c npw rest"
  by (induction pre) (simp_all add: scan_Cons_rejected del: recover_scan.simps)

lemma scan_all_rejected:
  "\<forall>x\<in>set es. entry_rejected L c x \<Longrightarrow>
   recover_scan L s u a c npw es = (Inr (False, ''Invalid recovery code'', None), s)"
  using scan_skip [of es L c s u a npw "[]"] by simp

lemma scan_success_decomp:
  assumes "gcm_ok L" and "kdf_ok L"
    and "recover_scan L s u a c npw es = (Inr (True, m, k), s')"
  shows "\<exists>pre e post mk. es = pre @ e # post \<and> (\<forall>x\<in>set pre. entry_rejected L c x) \<and>
           open_entry L c e = Inr mk"
  using assms(3)
proof (induction es)
  case Nil
  then show ?case by simp
next
  case (Cons e es)
  consider (rej) "entry_rejected L c e" | (und) "open_entry L c e = Inl Binascii_Error"
    | (hit) mk where "open_entry L c e = Inr mk"
    using entry_trichotomy by blast
  then show ?case
  proof cases
    case rej
    with Cons.prems have "recover_scan L s u a c npw es = (Inr (True, m, k), s')"
      by (simp add: scan_Cons_rejected del: recover_scan.simps)
    from Cons.IH [OF this] obtain pre x post mk where
      "es = pre @ x # post" "\<forall>y\<in>set pre. entry_rejected L c y" "open_entry L c x = Inr mk"
      by blast
    with rej have "e # es = (e # pre) @ x # post \<and> (\<forall>y\<in>set (e # pre). entry_rejected L c y) \<and>
        open_entry L c x = Inr mk"
      by simp
    then show ?thesis by blast
  next
    case und
    with Cons.prems show ?thesis
      by (simp add: scan_Cons_undecodable del: recover_scan.simps)
  next
    case hit
    then have "e # es = [] @ e # es \<and> (\<forall>y\<in>set []. entry_rejected L c y) \<and> open_entry L c e = Inr mk"
      by simp
    then show ?thesis by blast
  qed
qed


section \<open>Facts about the sample library and the sample stores\<close>

lemma sample_seal_opens:
  "length iv = 16 \<Longrightarrow>
   decrypt_data sample_lib (sample_seal secret sl iv data) (derive_key sample_lib secret sl 100000) = Inr data"
  using sample_gcm_ok sample_kdf_ok
  apply (simp add: sample_seal_def Let_def decrypt_data_def derive_key_ok gcm_iv_ok_def gcm_tag_ok_def)
  apply (simp add: gcm_ok_def derive_key_ok gcm_iv_ok_def)
  done

lemma sample_seal_rejects:
  assumes "length iv = 16"
    and "take 16 (derive_key sample_lib secret' sl 100000) \<noteq> take 16 (derive_key sample_lib secret sl 100000)"
  shows "decrypt_data sample_lib (sample_seal secret sl iv data) (derive_key sample_lib secret' sl 100000) = Inl InvalidTag"
proof -
  have k: "aes_key_ok (derive_key sample_lib secret' sl 100000)"
    by (rule derive_key_ok [OF sample_kdf_ok])
  have l: "length (derive_key sample_lib secret sl 100000) = 32"
    by (rule derive_key_length [OF sample_kdf_ok])
  have t: "take 16 (drop 16 (sample_seal secret sl iv data)) = take 16 (derive_key sample_lib secret sl 100000)"
    using assms(1) l by (simp add: sample_seal_def Let_def sample_lib_def)
  have i: "take 16 (sample_seal secret sl iv data) = iv"
    using assms(1) by (simp add: sample_seal_def Let_def)
  have "gcm_decrypt sample_lib (derive_key sample_lib secret' sl 100000) iv
      (take 16 (derive_key sample_lib secret sl 100000)) (drop 32 (sample_seal secret sl iv data)) = None"
    using assms(2) by (simp add: sample_lib_def)
  then show ?thesis
    using assms(1) l by (simp add: decrypt_data_def Let_def k i t gcm_iv_ok_def gcm_tag_ok_def)
qed

lemma sample_key_prefix:
  "length secret = 8 \<Longrightarrow> take 8 (derive_key sample_lib secret sl 100000) = map char_to_byte secret"
  by (simp add: derive_key_def sample_lib_def)

lemma sample_entry_opens:
  "length iv = 16 \<Longrightarrow> open_entry sample_lib code (sample_entry code sl iv data) = Inr data"
  using sample_b64_ok by (simp add: open_entry_def sample_entry_def b64_ok_def sample_seal_opens)

lemma sample_entry_rejects:
  assumes "length iv = 16"
    and "take 16 (derive_key sample_lib code' sl 100000) \<noteq> take 16 (derive_key sample_lib code sl 100000)"
  shows "entry_rejected sample_lib code' (sample_entry code sl iv data)"
  using sample_b64_ok assms
  by (simp add: entry_rejected_def open_entry_def sample_entry_def b64_ok_def sample_seal_rejects)

lemma bob_lookup: "users bob_world ''bob'' = Some bob_account"
  by (simp add: bob_world_def)

lemma bob_salt: "b64decode sample_lib (salt bob_account) = Some (replicate 16 1)"
  using sample_b64_ok by (simp add: bob_account_def b64_ok_def)

lemma bob_envelope:
  "b64decode sample_lib (encrypted_master_key bob_account) =
     Some (sample_seal ''hunter2'' (replicate 16 1) (replicate 16 2) bob_key)"
  using sample_b64_ok by (simp add: bob_account_def b64_ok_def)

lemma bob_wrong_password:
  "decrypt_data sample_lib (sample_seal ''hunter2'' (replicate 16 1) (replicate 16 2) bob_key)
     (derive_key sample_lib ''nope'' (replicate 16 1) 100000) = Inl InvalidTag"
proof (rule sample_seal_rejects)
  show "length (replicate 16 (2 :: 8 word)) = 16"
    by simp
  have "hd (derive_key sample_lib ''nope'' (replicate 16 1) 100000) = char_to_byte CHR ''n''"
    by (simp add: derive_key_def sample_lib_def)
  moreover have "hd (derive_key sample_lib ''hunter2'' (replicate 16 1) 100000) = char_to_byte CHR ''h''"
    by (simp add: derive_key_def sample_lib_def)
  moreover have "char_to_byte CHR ''n'' \<noteq> char_to_byte CHR ''h''"
    by (simp add: char_to_byte_def)
  ultimately have "hd (take 16 (derive_key sample_lib ''nope'' (replicate 16 1) 100000))
      \<noteq> hd (take 16 (derive_key sample_lib ''hunter2'' (replicate 16 1) 100000))"
    by simp
  then show "take 16 (derive_key sample_lib ''nope'' (replicate 16 1) 100000)
      \<noteq> take 16 (derive_key sample_lib ''hunter2'' (replicate 16 1) 100000)"
    by metis
qed

lemma sample_codes_differ:
  assumes "length c = 8" and "length c' = 8" and "c' \<noteq> c"
  shows "take 16 (derive_key sample_lib c' sl 100000) \<noteq> take 16 (derive_key sample_lib c sl 100000)"
proof
  assume "take 16 (derive_key sample_lib c' sl 100000) = take 16 (derive_key sample_lib c sl 100000)"
  then have "take 8 (take 16 (derive_key sample_lib c' sl 100000))
      = take 8 (take 16 (derive_key sample_lib c sl 100000))"
    by simp
  then have "map char_to_byte c' = map char_to_byte c"
    using assms(1,2) by (simp add: sample_key_prefix)
  then have "map byte_to_char (map char_to_byte c') = map byte_to_char (map char_to_byte c)"
    by simp
  then have "c' = c"
    by (simp add: comp_def char_byte_roundtrip)
  with assms(3) show False
    by simp
qed

lemma sample_entry_other_code:
  assumes "length iv = 16" and "length c = 8" and "length c' = 8" and "c' \<noteq> c"
  shows "entry_rejected sample_lib c' (sample_entry c sl iv data)"
  by (rule sample_entry_rejects [OF assms(1) sample_codes_differ [OF assms(2,3,4)]])

lemma bob_entries_rejected:
  "\<forall>e\<in>set (recovery_data bob_account). entry_rejected sample_lib ''33333333'' e"
  by (simp add: bob_account_def sample_entry_other_code)

lemma bob_first_rejected:
  "entry_rejected sample_lib ''22222222'' (sample_entry ''11111111'' (replicate 16 3) (replicate 16 4) bob_key)"
  by (simp add: sample_entry_other_code)

lemma bob_second_rejected:
  "entry_rejected sample_lib ''11111111'' (sample_entry ''22222222'' (replicate 16 6) (replicate 16 7) bob_key)"
  by (simp add: sample_entry_other_code)


section \<open>Failure paths\<close>

text \<open>
  C4. For every account and every recovery code that opens none of the account's recovery
  entries (every entry decodes and its trial decryption raises), \<open>recover_account\<close> fails
  with the result \<open>(False, "Invalid recovery code", None)\<close> after the scan has passed
  every entry, and the whole state is unchanged: the dictionary, the saved file and the
  random source.
\<close>

theorem recover_invalid_code:
  assumes "users s u = Some a"
    and "\<forall>e\<in>set (recovery_data a). entry_rejected L c e"
  shows "recover_account L s u c npw = (Inr (False, ''Invalid recovery code'', None), s)"
  using assms by (simp add: recover_account_def scan_all_rejected)

theorem recover_invalid_code_witness:
  "users bob_world ''bob'' = Some bob_account \<and>
   length (recovery_data bob_account) = 2 \<and>
   recover_account sample_lib bob_world ''bob'' ''33333333'' ''newpw''
     = (Inr (False, ''Invalid recovery code'', None), bob_world)"
  using recover_invalid_code [OF bob_lookup bob_entries_rejected, of "''newpw''"] bob_lookup
  by (simp add: bob_account_def)

text \<open>
  C6. \<open>login\<close> never changes the state: for every user name and password the state after
  the call is the state before it. For an existing user whose stored salt and envelope
  decode, a password whose derived key does not open the envelope gives the result
  \<open>(False, "Invalid password", None)\<close>.
\<close>

theorem login_read_only:
  "snd (login L s u pw) = s \<and>
   (users s u = Some a \<longrightarrow> b64decode L (salt a) = Some sl \<longrightarrow>
    b64decode L (encrypted_master_key a) = Some emk \<longrightarrow>
    decrypt_data L emk (derive_key L pw sl 100000) = Inl x \<longrightarrow>
    login L s u pw = (Inr (False, ''Invalid password'', None), s))"
  by (simp add: login_frame login_known)

theorem login_read_only_witness:
  "snd (login sample_lib bob_world ''carol'' ''pw'') = bob_world \<and>
   snd (login sample_lib bob_world ''bob'' ''hunter2'') = bob_world \<and>
   login sample_lib bob_world ''bob'' ''nope'' = (Inr (False, ''Invalid password'', None), bob_world)"
  using login_read_only [of sample_lib bob_world "''bob''" "''nope''" bob_account "replicate 16 1"
      "sample_seal ''hunter2'' (replicate 16 1) (replicate 16 2) bob_key" InvalidTag]
    login_read_only [of sample_lib bob_world "''bob''" "''hunter2''" bob_account "[]" "[]" InvalidTag]
    login_read_only [of sample_lib bob_world "''carol''" "''pw''" bob_account "[]" "[]" InvalidTag]
    bob_lookup bob_salt bob_envelope bob_wrong_password
  by simp

text \<open>
  C7. \<open>create_account\<close> returns \<open>(False, "Username already exists", [])\<close> if and only if
  the user name is a key of the dictionary; in that case the state is unchanged, so nothing
  is saved and the existing record stays as it is.
\<close>

theorem create_account_duplicate:
  "(fst (create_account L s u pw) = Inr (False, ''Username already exists'', []) \<longleftrightarrow>
      u \<in> dom (users s)) \<and>
   (u \<in> dom (users s) \<longrightarrow> snd (create_account L s u pw) = s)"
  by (auto simp: create_account_def Let_def split: prod.splits sum.splits)

theorem create_account_duplicate_witness:
  "create_account sample_lib bob_world ''bob'' ''other''
     = (Inr (False, ''Username already exists'', []), bob_world) \<and>
   fst (create_account sample_lib empty_world ''bob'' ''other'')
     \<noteq> Inr (False, ''Username already exists'', [])"
proof -
  have "''bob'' \<in> dom (users bob_world)" and "''bob'' \<notin> dom (users empty_world)"
    by (simp_all add: bob_world_def empty_world_def)
  then show ?thesis
    using create_account_duplicate [of sample_lib bob_world "''bob''" "''other''"]
      create_account_duplicate [of sample_lib empty_world "''bob''" "''other''"]
    by (simp add: prod_eq_iff)
qed

text \<open>
  C9, as the code has it. For every key and every input shorter than 32 bytes
  \<open>decrypt_data\<close> fails, and never returns a plaintext; the exception is the \<open>ValueError\<close>
  of the argument checks of \<open>AES\<close> and \<open>GCM\<close>, not the \<open>InvalidTag\<close> that a wrong key or
  a tampered envelope raises, and \<open>decrypt_data\<close> catches neither. The caller \<open>login\<close>
  catches every exception: a stored envelope shorter than 32 bytes gives
  \<open>(False, "Invalid password", None)\<close>, as a wrong password does.
\<close>

theorem short_envelope_fails:
  assumes "length e < 32"
  shows "decrypt_data L e k = Inl ValueError \<and>
    (users s u = Some a \<longrightarrow> b64decode L (salt a) = Some sl \<longrightarrow>
     b64decode L (encrypted_master_key a) = Some e \<longrightarrow>
     login L s u pw = (Inr (False, ''Invalid password'', None), s))"
  using assms by (simp add: short_envelope_value_error login_known)

theorem short_envelope_fails_witness:
  "length (replicate 31 (0 :: 8 word)) < 32 \<and>
   decrypt_data sample_lib (replicate 31 0) (replicate 32 7) = Inl ValueError \<and>
   login sample_lib bob_short_world ''bob'' ''hunter2'' = (Inr (False, ''Invalid password'', None), bob_short_world)"
proof -
  let ?a = "bob_account\<lparr>encrypted_master_key := b64encode sample_lib (replicate 31 0)\<rparr>"
  have "users bob_short_world ''bob'' = Some ?a"
    by (simp add: bob_short_world_def)
  moreover have "b64decode sample_lib (salt ?a) = Some (replicate 16 1)"
    using bob_salt by simp
  moreover have "b64decode sample_lib (encrypted_master_key ?a) = Some (replicate 31 0)"
    using sample_b64_ok by (simp add: b64_ok_def)
  ultimately show ?thesis
    using short_envelope_fails [of "replicate 31 0" sample_lib "replicate 32 7" bob_short_world "''bob''" ?a
        "replicate 16 1" "''hunter2''"]
    by simp
qed

text \<open>
  C9 as stated fails: on a 31-byte input under a 32-byte key \<open>decrypt_data\<close> raises
  \<open>ValueError\<close>, while a well-formed envelope under a wrong key raises \<open>InvalidTag\<close>.
\<close>

theorem short_envelope_counterexample:
  "decrypt_data sample_lib (replicate 31 0) (replicate 32 7) \<noteq> Inl InvalidTag \<and>
   decrypt_data sample_lib (sample_seal ''hunter2'' (replicate 16 1) (replicate 16 2) bob_key)
     (derive_key sample_lib ''nope'' (replicate 16 1) 100000) = Inl InvalidTag"
  by (simp add: short_envelope_value_error bob_wrong_password)

section \<open>Account creation\<close>

lemma secrets_choice_digit:
  "fst (secrets_choice ''0123456789'' t) \<in> set ''0123456789''"
proof -
  have "t 0 mod 10 < length ''0123456789''"
    by simp
  then have "''0123456789'' ! (t 0 mod 10) \<in> set ''0123456789''"
    by (rule nth_mem)
  then show ?thesis
    by (simp add: secrets_choice_def)
qed

lemma gen_code_digits:
  "length (fst (gen_code n t)) = n \<and> list_all (\<lambda>ch. ch \<in> set ''0123456789'') (fst (gen_code n t))"
proof (induction n arbitrary: t)
  case 0
  then show ?case by simp
next
  case (Suc n)
  obtain c t1 where c: "secrets_choice ''0123456789'' t = (c, t1)"
    by (cases "secrets_choice ''0123456789'' t")
  obtain cs t2 where cs: "gen_code n t1 = (cs, t2)"
    by (cases "gen_code n t1")
  have "c \<in> set ''0123456789''"
    using secrets_choice_digit [of t] c by simp
  moreover have "length cs = n \<and> list_all (\<lambda>ch. ch \<in> set ''0123456789'') cs"
    using Suc.IH [of t1] cs by simp
  ultimately show ?case
    using c cs by simp
qed

lemma gen_code_is_code: "is_code (fst (gen_code 8 t))"
  using gen_code_digits [of 8 t] by (simp add: is_code_def)

text \<open>A random source whose every draw is a multiple of ten gives the digit 0 each time.\<close>

lemma gen_code_tens:
  assumes "\<forall>i. t i mod 10 = 0"
  shows "gen_code n t = (replicate n CHR ''0'', (\<lambda>i. t (i + n)))"
  using assms
proof (induction n arbitrary: t)
  case 0
  then show ?case by simp
next
  case (Suc n)
  have c: "secrets_choice ''0123456789'' t = (CHR ''0'', (\<lambda>i. t (Suc i)))"
    using Suc.prems by (simp add: secrets_choice_def)
  have "\<forall>i. t (Suc i) mod 10 = 0"
    using Suc.prems by simp
  from Suc.IH [OF this] show ?case
    using c by simp
qed

lemma recovery_loop_ok:
  assumes "gcm_ok L" and "kdf_ok L" and "b64_ok L"
  shows "\<exists>cs es t'. recovery_loop L mk n codes rd t = (Inr (codes @ cs, rd @ es), t') \<and>
           length cs = n \<and> length es = n \<and> list_all is_code cs \<and>
           list_all2 (\<lambda>c e. open_entry L c e = Inr mk) cs es \<and>
           ((\<forall>i. t i mod 10 = 0) \<longrightarrow> cs = replicate n ''00000000'')"
proof (induction n arbitrary: codes rd t)
  case 0
  then show ?case by simp
next
  case (Suc n)
  obtain code t1 where c: "gen_code 8 t = (code, t1)"
    by (cases "gen_code 8 t")
  obtain rs t2 where g: "generate_salt 16 t1 = (rs, t2)"
    by (cases "generate_salt 16 t1")
  have kk: "aes_key_ok (derive_key L code rs 100000)"
    by (rule derive_key_ok [OF assms(2)])
  from seal_open [OF assms(1) kk, of mk t2]
  obtain ek where e: "encrypt_data L mk (derive_key L code rs 100000) t2 = (Inr ek, snd (urandom 16 t2))"
    and o: "decrypt_data L ek (derive_key L code rs 100000) = Inr mk"
    by blast
  let ?entry = "RecoveryEntry (b64encode L rs) (b64encode L ek)"
  have step: "recovery_loop L mk (Suc n) codes rd t =
      recovery_loop L mk n (codes @ [code]) (rd @ [?entry]) (snd (urandom 16 t2))"
    by (simp add: c g e Let_def)
  from Suc.IH [of "codes @ [code]" "rd @ [?entry]" "snd (urandom 16 t2)"]
  obtain cs es t' where ih:
    "recovery_loop L mk n (codes @ [code]) (rd @ [?entry]) (snd (urandom 16 t2))
       = (Inr ((codes @ [code]) @ cs, (rd @ [?entry]) @ es), t')"
    "length cs = n" "length es = n" "list_all is_code cs"
    "list_all2 (\<lambda>c e. open_entry L c e = Inr mk) cs es"
    "(\<forall>i. snd (urandom 16 t2) i mod 10 = 0) \<longrightarrow> cs = replicate n ''00000000''"
    by blast
  have code: "is_code code"
    using gen_code_is_code [of t] c by simp
  have entry: "open_entry L code ?entry = Inr mk"
    using assms(3) o by (simp add: open_entry_def b64_ok_def)
  have tens: "cs = replicate n ''00000000'' \<and> code = ''00000000''" if t: "\<forall>i. t i mod 10 = 0"
  proof -
    have "code = ''00000000'' \<and> t1 = (\<lambda>i. t (i + 8))"
      using gen_code_tens [OF t, of 8] c by (simp add: numeral_eq_Suc)
    moreover from this have "\<forall>i. snd (urandom 16 t2) i mod 10 = 0"
      using g t by (auto simp: generate_salt_def urandom_def)
    ultimately show ?thesis
      using ih(6) by simp
  qed
  have "recovery_loop L mk (Suc n) codes rd t = (Inr (codes @ (code # cs), rd @ (?entry # es)), t') \<and>
      length (code # cs) = Suc n \<and> length (?entry # es) = Suc n \<and> list_all is_code (code # cs) \<and>
      list_all2 (\<lambda>c e. open_entry L c e = Inr mk) (code # cs) (?entry # es) \<and>
      ((\<forall>i. t i mod 10 = 0) \<longrightarrow> code # cs = replicate (Suc n) ''00000000'')"
    using step ih code entry tens by simp
  then show ?case
    by blast
qed


lemma urandom_tens: "\<forall>i. t i mod 10 = 0 \<Longrightarrow> \<forall>i. snd (urandom n t) i mod 10 = 0"
  by (simp add: urandom_def)

lemma create_account_ok:
  assumes "gcm_ok L" and "kdf_ok L" and "b64_ok L" and "u \<notin> dom (users s)"
  shows "\<exists>codes a mk s'.
      create_account L s u pw = (Inr (True, ''Account created successfully'', codes), s') \<and>
      users s' = (users s)(u \<mapsto> a) \<and> db_file s' = users s' \<and>
      length codes = 10 \<and> list_all is_code codes \<and>
      passwords a = Map.empty \<and> length (recovery_data a) = 10 \<and>
      list_all2 (\<lambda>c e. open_entry L c e = Inr mk) codes (recovery_data a) \<and>
      length mk = 32 \<and> mk = fst (urandom 32 (snd (generate_salt 16 (entropy s)))) \<and>
      login L s' u pw = (Inr (True, ''Login successful'', Some mk), s') \<and>
      ((\<forall>i. entropy s i mod 10 = 0) \<longrightarrow> codes = replicate 10 ''00000000'')"
proof -
  obtain salt0 t1 where g: "generate_salt 16 (entropy s) = (salt0, t1)"
    by (cases "generate_salt 16 (entropy s)")
  obtain mk t2 where m: "urandom 32 t1 = (mk, t2)"
    by (cases "urandom 32 t1")
  have lmk: "length mk = 32"
    using urandom_length [of 32 t1] m by simp
  have kk: "aes_key_ok (derive_key L pw salt0 100000)"
    by (rule derive_key_ok [OF assms(2)])
  from seal_open [OF assms(1) kk, of mk t2]
  obtain emk where e: "encrypt_data L mk (derive_key L pw salt0 100000) t2 = (Inr emk, snd (urandom 16 t2))"
    and o: "decrypt_data L emk (derive_key L pw salt0 100000) = Inr mk"
    by blast
  from recovery_loop_ok [OF assms(1,2,3), of mk 10 "[]" "[]" "snd (urandom 16 t2)"]
  obtain cs es t4 where r: "recovery_loop L mk 10 [] [] (snd (urandom 16 t2)) = (Inr (cs, es), t4)"
    and f: "length cs = 10" "length es = 10" "list_all is_code cs"
      "list_all2 (\<lambda>c e. open_entry L c e = Inr mk) cs es"
      "(\<forall>i. snd (urandom 16 t2) i mod 10 = 0) \<longrightarrow> cs = replicate 10 ''00000000''"
    by auto
  let ?a = "\<lparr>salt = b64encode L salt0, encrypted_master_key = b64encode L emk,
      passwords = Map.empty, recovery_data = es\<rparr>"
  let ?s' = "save_database (s\<lparr>entropy := t4, users := (users s)(u \<mapsto> ?a)\<rparr>)"
  have c: "create_account L s u pw = (Inr (True, ''Account created successfully'', cs), ?s')"
    using assms(4) by (simp add: create_account_def g m e r Let_def)
  have u: "users ?s' = (users s)(u \<mapsto> ?a)" and d: "db_file ?s' = users ?s'"
    by (simp_all add: save_database_def)
  have "users ?s' u = Some ?a"
    by (simp add: u)
  moreover have "b64decode L (salt ?a) = Some salt0" "b64decode L (encrypted_master_key ?a) = Some emk"
    using assms(3) by (simp_all add: b64_ok_def)
  ultimately have l: "login L ?s' u pw = (Inr (True, ''Login successful'', Some mk), ?s')"
    using login_known [of ?s' u ?a L salt0 emk pw] o by simp
  have tens: "cs = replicate 10 ''00000000''" if t: "\<forall>i. entropy s i mod 10 = 0"
  proof -
    have "\<forall>i. t1 i mod 10 = 0"
      using urandom_tens [OF t, of 16] g by (simp add: generate_salt_def)
    then have "\<forall>i. t2 i mod 10 = 0"
      using urandom_tens [of t1 32] m by simp
    then have "\<forall>i. snd (urandom 16 t2) i mod 10 = 0"
      by (rule urandom_tens)
    with f(5) show ?thesis
      by simp
  qed
  have "create_account L s u pw = (Inr (True, ''Account created successfully'', cs), ?s') \<and>
      users ?s' = (users s)(u \<mapsto> ?a) \<and> db_file ?s' = users ?s' \<and>
      length cs = 10 \<and> list_all is_code cs \<and>
      passwords ?a = Map.empty \<and> length (recovery_data ?a) = 10 \<and>
      list_all2 (\<lambda>c e. open_entry L c e = Inr mk) cs (recovery_data ?a) \<and>
      length mk = 32 \<and> mk = fst (urandom 32 (snd (generate_salt 16 (entropy s)))) \<and>
      login L ?s' u pw = (Inr (True, ''Login successful'', Some mk), ?s') \<and>
      ((\<forall>i. entropy s i mod 10 = 0) \<longrightarrow> cs = replicate 10 ''00000000'')"
    using c u d f lmk l tens g m by simp
  then show ?thesis
    by blast
qed

section \<open>Storing and retrieving passwords\<close>

lemma login_success:
  assumes "login L s u pw = (Inr (True, m, k), s')"
  shows "\<exists>a sl emk mk. users s u = Some a \<and> b64decode L (salt a) = Some sl \<and>
      b64decode L (encrypted_master_key a) = Some emk \<and>
      decrypt_data L emk (derive_key L pw sl 100000) = Inr mk \<and>
      k = Some mk \<and> m = ''Login successful'' \<and> s' = s"
  using assms by (auto simp: login_def Let_def split: option.splits sum.splits)

lemma get_password_known:
  assumes "users s u = Some a" and "login L s u pw = (Inr (True, m, Some mk), s)"
  shows "get_password L s u pw svc =
     ((case passwords a svc of
         None \<Rightarrow> Inr (False, ''No password stored for '' @ svc, None)
       | Some stored \<Rightarrow>
           (case b64decode L stored of
              None \<Rightarrow> Inl Binascii_Error
            | Some ep \<Rightarrow>
                (case decrypt_data L ep mk of
                   Inl _ \<Rightarrow> Inr (False, ''Failed to decrypt password'', None)
                 | Inr d \<Rightarrow>
                     (case bytes_decode L d of
                        None \<Rightarrow> Inr (False, ''Failed to decrypt password'', None)
                      | Some p \<Rightarrow> Inr (True, ''Password for '' @ svc, Some p))))), s)"
  using assms by (auto simp: get_password_def split: option.splits sum.splits)

lemma add_password_ok:
  assumes "gcm_ok L" and "users s u = Some a"
    and "login L s u pw = (Inr (True, m, Some mk), s)" and "aes_key_ok mk"
  shows "\<exists>ep t1. add_password L s u pw svc p =
       (Inr (True, ''Password for '' @ svc @ '' added successfully''),
        save_database (s\<lparr>entropy := t1, users := (users s)(u \<mapsto>
          a\<lparr>passwords := (passwords a)(svc \<mapsto> b64encode L ep)\<rparr>)\<rparr>)) \<and>
       decrypt_data L ep mk = Inr (str_encode L p)"
proof -
  from seal_open [OF assms(1,4), of "str_encode L p" "entropy s"]
  obtain ep where e: "encrypt_data L (str_encode L p) mk (entropy s) = (Inr ep, snd (urandom 16 (entropy s)))"
    and o: "decrypt_data L ep mk = Inr (str_encode L p)"
    by blast
  have "add_password L s u pw svc p =
       (Inr (True, ''Password for '' @ svc @ '' added successfully''),
        save_database (s\<lparr>entropy := snd (urandom 16 (entropy s)), users := (users s)(u \<mapsto>
          a\<lparr>passwords := (passwords a)(svc \<mapsto> b64encode L ep)\<rparr>)\<rparr>))"
    using assms(2,3) by (simp add: add_password_def e dom_def)
  with o show ?thesis
    by blast
qed


lemma add_then_get_aux:
  assumes "gcm_ok L" and "b64_ok L" and "utf8_ok L"
    and "login L s u pw = (Inr (True, m, Some mk), s)" and "length mk = 32"
  shows "\<exists>s1. add_password L s u pw svc p =
       (Inr (True, ''Password for '' @ svc @ '' added successfully''), s1) \<and>
     get_password L s1 u pw svc = (Inr (True, ''Password for '' @ svc, Some p), s1) \<and>
     db_file s1 = users s1"
proof -
  from login_success [OF assms(4)] obtain a sl emk where a: "users s u = Some a"
    and d: "b64decode L (salt a) = Some sl" "b64decode L (encrypted_master_key a) = Some emk"
      "decrypt_data L emk (derive_key L pw sl 100000) = Inr mk"
    by auto
  have key: "aes_key_ok mk"
    using assms(5) by (simp add: aes_key_ok_def)
  from add_password_ok [OF assms(1) a assms(4) key, of svc p]
  obtain ep t1 where ad: "add_password L s u pw svc p =
       (Inr (True, ''Password for '' @ svc @ '' added successfully''),
        save_database (s\<lparr>entropy := t1, users := (users s)(u \<mapsto>
          a\<lparr>passwords := (passwords a)(svc \<mapsto> b64encode L ep)\<rparr>)\<rparr>))"
    and o: "decrypt_data L ep mk = Inr (str_encode L p)"
    by blast
  let ?a1 = "a\<lparr>passwords := (passwords a)(svc \<mapsto> b64encode L ep)\<rparr>"
  let ?s1 = "save_database (s\<lparr>entropy := t1, users := (users s)(u \<mapsto> ?a1)\<rparr>)"
  have u1: "users ?s1 u = Some ?a1"
    by (simp add: save_database_def)
  have l1: "login L ?s1 u pw = (Inr (True, ''Login successful'', Some mk), ?s1)"
    using login_known [OF u1, of L sl emk pw] d by simp
  have "get_password L ?s1 u pw svc = (Inr (True, ''Password for '' @ svc, Some p), ?s1)"
    using assms(2,3) o by (simp add: get_password_known [OF u1 l1] b64_ok_def utf8_ok_def)
  moreover have "db_file ?s1 = users ?s1"
    by (simp add: save_database_def)
  ultimately show ?thesis
    using ad by blast
qed

section \<open>Recovery\<close>

lemma recover_success:
  assumes "gcm_ok L" and "kdf_ok L" and "users s u = Some a"
    and "recover_account L s u c npw = (Inr (True, m, k), s')"
  shows "\<exists>pre e post mk ns nemk t2.
      recovery_data a = pre @ e # post \<and> (\<forall>x\<in>set pre. entry_rejected L c x) \<and>
      open_entry L c e = Inr mk \<and> k = Some mk \<and> m = ''Account recovered successfully'' \<and>
      s' = save_database (s\<lparr>entropy := t2, users := (users s)(u \<mapsto>
             a\<lparr>salt := b64encode L ns, encrypted_master_key := b64encode L nemk,
               recovery_data := pre @ post\<rparr>)\<rparr>) \<and>
      decrypt_data L nemk (derive_key L npw ns 100000) = Inr mk"
proof -
  have sc: "recover_scan L s u a c npw (recovery_data a) = (Inr (True, m, k), s')"
    using assms(3,4) by (simp add: recover_account_def)
  from scan_success_decomp [OF assms(1,2) sc]
  obtain pre e post mk where dec: "recovery_data a = pre @ e # post"
    "\<forall>x\<in>set pre. entry_rejected L c x" "open_entry L c e = Inr mk"
    by blast
  have "recover_scan L s u a c npw (recovery_data a) = recover_scan L s u a c npw (e # post)"
    using scan_skip [OF dec(2), of s u a npw "e # post"] dec(1) by simp
  moreover from scan_Cons_hit [OF assms(1,2) dec(3), of s u a npw post]
  obtain ns nemk t2 where hit: "recover_scan L s u a c npw (e # post) =
     (Inr (True, ''Account recovered successfully'', Some mk),
      save_database (s\<lparr>entropy := t2, users := (users s)(u \<mapsto>
         a\<lparr>salt := b64encode L ns, encrypted_master_key := b64encode L nemk,
           recovery_data := remove1 e (recovery_data a)\<rparr>)\<rparr>))"
    and o: "decrypt_data L nemk (derive_key L npw ns 100000) = Inr mk"
    by blast
  ultimately have res: "k = Some mk" "m = ''Account recovered successfully''"
    "s' = save_database (s\<lparr>entropy := t2, users := (users s)(u \<mapsto>
         a\<lparr>salt := b64encode L ns, encrypted_master_key := b64encode L nemk,
           recovery_data := remove1 e (recovery_data a)\<rparr>)\<rparr>)"
    using sc by simp_all
  have "e \<notin> set pre"
    using dec(2,3) by (auto simp: entry_rejected_def)
  then have "remove1 e (recovery_data a) = pre @ post"
    by (simp add: dec(1) remove1_append)
  with res(3) have r3: "s' = save_database (s\<lparr>entropy := t2, users := (users s)(u \<mapsto>
         a\<lparr>salt := b64encode L ns, encrypted_master_key := b64encode L nemk,
           recovery_data := pre @ post\<rparr>)\<rparr>)"
    by simp
  from dec res(1,2) r3 o show ?thesis
    by blast
qed

text \<open>The converse: a code that opens some entry recovers the account.\<close>

lemma recover_first_hit:
  assumes "gcm_ok L" and "kdf_ok L" and "users s u = Some a"
    and "recovery_data a = pre @ e # post" and "\<forall>x\<in>set pre. entry_rejected L c x"
    and "open_entry L c e = Inr mk"
  shows "\<exists>s'. recover_account L s u c npw =
      (Inr (True, ''Account recovered successfully'', Some mk), s')"
proof -
  have "recover_account L s u c npw = recover_scan L s u a c npw (e # post)"
    using assms(3,4) scan_skip [OF assms(5), of s u a npw "e # post"]
    by (simp add: recover_account_def)
  with scan_Cons_hit [OF assms(1,2,6), of s u a npw post] show ?thesis
    by auto
qed


section \<open>Claims about accounts\<close>

lemma tape0_tens: "\<forall>i. entropy empty_world i mod 10 = 0"
  by (simp add: empty_world_def tape0_def)

lemma alice_absent: "''alice'' \<notin> dom (users empty_world)"
  by (simp add: empty_world_def)

lemma sample_key_hd:
  "pw \<noteq> [] \<Longrightarrow> hd (derive_key sample_lib pw sl it) = char_to_byte (hd pw)"
  by (cases pw) (simp_all add: derive_key_def sample_lib_def)

lemma sample_decrypt_other_key:
  assumes "decrypt_data sample_lib env k = Inr d" and "aes_key_ok k'" and "hd k' \<noteq> hd k"
  shows "decrypt_data sample_lib env k' = Inl InvalidTag"
proof -
  from assms(1) have ok: "aes_key_ok k" "gcm_iv_ok (take 16 env)" "gcm_tag_ok (take 16 (drop 16 env))"
    and tag: "take 16 (drop 16 env) = take 16 k"
    by (auto simp: decrypt_data_def Let_def sample_lib_def split: if_splits)
  have "hd (take 16 k') \<noteq> hd (take 16 k)"
    using assms(3) by simp
  then have "take 16 (drop 16 env) \<noteq> take 16 k'"
    using tag by metis
  then show ?thesis
    using ok assms(2) by (simp add: decrypt_data_def Let_def sample_lib_def)
qed

lemma bob_login:
  "login sample_lib bob_world ''bob'' ''hunter2'' = (Inr (True, ''Login successful'', Some bob_key), bob_world)"
  using login_known [OF bob_lookup bob_salt bob_envelope, of "''hunter2''"]
  by (simp add: sample_seal_opens)

lemma bob_key_length: "length bob_key = 32"
  by (simp add: bob_key_def)

text \<open>
  C5. For an existing account and its master password (\<open>login\<close> succeeds and returns the
  32-byte master key), every service name and every password \<open>p\<close>: \<open>add_password\<close>
  succeeds, and \<open>get_password\<close> on the resulting state succeeds and returns exactly \<open>p\<close>.
\<close>

theorem add_then_get:
  assumes "gcm_ok L" and "b64_ok L" and "utf8_ok L"
    and "login L s u pw = (Inr (True, m, Some mk), s)" and "length mk = 32"
  shows "\<exists>s1. add_password L s u pw svc p =
       (Inr (True, ''Password for '' @ svc @ '' added successfully''), s1) \<and>
     get_password L s1 u pw svc = (Inr (True, ''Password for '' @ svc, Some p), s1)"
  using add_then_get_aux [OF assms, of svc p] by blast

theorem add_then_get_witness:
  "login sample_lib bob_world ''bob'' ''hunter2''
     = (Inr (True, ''Login successful'', Some bob_key), bob_world) \<and>
   length bob_key = 32 \<and>
   fst (add_password sample_lib bob_world ''bob'' ''hunter2'' ''github'' ''s3cr3t'')
     = Inr (True, ''Password for github added successfully'') \<and>
   get_password sample_lib bob_github_world ''bob'' ''hunter2'' ''github''
     = (Inr (True, ''Password for github'', Some ''s3cr3t''), bob_github_world)"
  using add_then_get [OF sample_gcm_ok sample_b64_ok sample_utf8_ok bob_login bob_key_length,
      of "''github''" "''s3cr3t''"] bob_login bob_key_length
  by (auto simp: bob_github_world_def)

text \<open>
  C8, as the code has it. Every successful \<open>create_account\<close> returns exactly ten recovery
  codes, each a string of eight decimal digits, and stores a record with exactly ten
  recovery entries; the i-th code opens the i-th entry, and every entry holds the same
  32-byte master key, the one that \<open>login\<close> returns. The codes are drawn independently:
  nothing makes them pairwise distinct.
\<close>

theorem create_account_codes:
  assumes "gcm_ok L" and "kdf_ok L" and "b64_ok L" and "u \<notin> dom (users s)"
  shows "\<exists>codes a mk s'.
      create_account L s u pw = (Inr (True, ''Account created successfully'', codes), s') \<and>
      length codes = 10 \<and> list_all is_code codes \<and>
      users s' u = Some a \<and> db_file s' = users s' \<and> length (recovery_data a) = 10 \<and>
      length mk = 32 \<and>
      login L s' u pw = (Inr (True, ''Login successful'', Some mk), s') \<and>
      list_all2 (\<lambda>c e. open_entry L c e = Inr mk) codes (recovery_data a)"
proof -
  from create_account_ok [OF assms, of pw] obtain codes a mk s' where
    "create_account L s u pw = (Inr (True, ''Account created successfully'', codes), s')"
    "users s' = (users s)(u \<mapsto> a)" "db_file s' = users s'" "length codes = 10"
    "list_all is_code codes" "length (recovery_data a) = 10"
    "list_all2 (\<lambda>c e. open_entry L c e = Inr mk) codes (recovery_data a)" "length mk = 32"
    "login L s' u pw = (Inr (True, ''Login successful'', Some mk), s')"
    by blast
  moreover from this have "users s' u = Some a"
    by simp
  ultimately show ?thesis
    by blast
qed

theorem create_account_codes_witness:
  "''alice'' \<notin> dom (users empty_world) \<and>
   (\<exists>codes a mk.
      create_account sample_lib empty_world ''alice'' ''pw1''
        = (Inr (True, ''Account created successfully'', codes), alice_world) \<and>
      length codes = 10 \<and> list_all is_code codes \<and>
      users alice_world ''alice'' = Some a \<and> length (recovery_data a) = 10 \<and>
      length mk = 32 \<and>
      list_all2 (\<lambda>c e. open_entry sample_lib c e = Inr mk) codes (recovery_data a))"
proof -
  from create_account_codes [OF sample_gcm_ok sample_kdf_ok sample_b64_ok alice_absent, of "''pw1''"]
  obtain codes a mk s' where c:
    "create_account sample_lib empty_world ''alice'' ''pw1''
       = (Inr (True, ''Account created successfully'', codes), s')"
    "length codes = 10" "list_all is_code codes" "users s' ''alice'' = Some a"
    "length (recovery_data a) = 10" "length mk = 32"
    "list_all2 (\<lambda>c e. open_entry sample_lib c e = Inr mk) codes (recovery_data a)"
    by blast
  from c(1) have "s' = alice_world"
    by (simp add: alice_world_def)
  with c alice_absent show ?thesis
    by blast
qed

text \<open>
  C8 as stated fails: with a random source whose draws are all multiples of ten, the ten
  codes returned are all \<open>00000000\<close>.
\<close>

theorem create_account_codes_counterexample:
  "fst (create_account sample_lib empty_world ''alice'' ''pw1'')
     = Inr (True, ''Account created successfully'', replicate 10 ''00000000'') \<and>
   \<not> distinct (replicate 10 ''00000000'')"
proof -
  from create_account_ok [OF sample_gcm_ok sample_kdf_ok sample_b64_ok alice_absent, of "''pw1''"]
    tape0_tens
  have "fst (create_account sample_lib empty_world ''alice'' ''pw1'')
     = Inr (True, ''Account created successfully'', replicate 10 ''00000000'')"
    by auto
  moreover have "\<not> distinct (replicate 10 ''00000000'')"
    by (simp add: numeral_eq_Suc)
  ultimately show ?thesis
    by simp
qed

lemma recover_after:
  assumes "gcm_ok L" and "kdf_ok L" and "b64_ok L" and "users s u = Some a"
    and "recover_account L s u c npw = (Inr (True, m, k), s')"
  shows "\<exists>pre e post mk a' sl emk.
      recovery_data a = pre @ e # post \<and> (\<forall>x\<in>set pre. entry_rejected L c x) \<and>
      open_entry L c e = Inr mk \<and> k = Some mk \<and> m = ''Account recovered successfully'' \<and>
      users s' = (users s)(u \<mapsto> a') \<and> db_file s' = users s' \<and>
      recovery_data a' = pre @ post \<and> passwords a' = passwords a \<and>
      b64decode L (salt a') = Some sl \<and> b64decode L (encrypted_master_key a') = Some emk \<and>
      decrypt_data L emk (derive_key L npw sl 100000) = Inr mk \<and>
      login L s' u npw = (Inr (True, ''Login successful'', Some mk), s')"
proof -
  from recover_success [OF assms(1,2,4,5)]
  obtain pre e post mk ns nemk t2 where r:
    "recovery_data a = pre @ e # post" "\<forall>x\<in>set pre. entry_rejected L c x"
    "open_entry L c e = Inr mk" "k = Some mk" "m = ''Account recovered successfully''"
    "s' = save_database (s\<lparr>entropy := t2, users := (users s)(u \<mapsto>
             a\<lparr>salt := b64encode L ns, encrypted_master_key := b64encode L nemk,
               recovery_data := pre @ post\<rparr>)\<rparr>)"
    "decrypt_data L nemk (derive_key L npw ns 100000) = Inr mk"
    by blast
  let ?a' = "a\<lparr>salt := b64encode L ns, encrypted_master_key := b64encode L nemk,
               recovery_data := pre @ post\<rparr>"
  have u: "users s' = (users s)(u \<mapsto> ?a')" and d: "db_file s' = users s'"
    by (simp_all add: r(6) save_database_def)
  have f: "recovery_data ?a' = pre @ post" "passwords ?a' = passwords a"
    "b64decode L (salt ?a') = Some ns" "b64decode L (encrypted_master_key ?a') = Some nemk"
    using assms(3) by (simp_all add: b64_ok_def)
  have "users s' u = Some ?a'"
    by (simp add: u)
  from login_known [OF this f(3,4), of npw]
  have l: "login L s' u npw = (Inr (True, ''Login successful'', Some mk), s')"
    by (simp add: r(7))
  from r(1-5) u d f r(7) l show ?thesis
    by blast
qed


section \<open>Claims about recovery\<close>

text \<open>
  C3, as the code has it. After a successful \<open>recover_account(username, c, newpw)\<close>: the
  entry matched is the first one in stored order that \<open>c\<close> opens, and it has been removed
  from the list; \<open>login\<close> with \<open>newpw\<close> succeeds and returns the key that entry held;
  \<open>login\<close> with any password whose derived key does not open the new envelope gives
  \<open>(False, "Invalid password", None)\<close>; and a second \<open>recover_account\<close> with \<open>c\<close> gives
  \<open>(False, "Invalid recovery code", None)\<close> and changes nothing, provided \<open>c\<close> opens none
  of the remaining entries.
\<close>

theorem recovery_one_shot:
  assumes "gcm_ok L" and "kdf_ok L" and "b64_ok L" and "users s u = Some a"
    and "recover_account L s u c npw = (Inr (True, m, k), s')"
  shows "\<exists>pre e post mk a' sl emk.
      recovery_data a = pre @ e # post \<and> (\<forall>x\<in>set pre. entry_rejected L c x) \<and>
      open_entry L c e = Inr mk \<and> k = Some mk \<and>
      users s' u = Some a' \<and> recovery_data a' = pre @ post \<and>
      b64decode L (salt a') = Some sl \<and> b64decode L (encrypted_master_key a') = Some emk \<and>
      login L s' u npw = (Inr (True, ''Login successful'', Some mk), s') \<and>
      (\<forall>oldpw x. decrypt_data L emk (derive_key L oldpw sl 100000) = Inl x \<longrightarrow>
         login L s' u oldpw = (Inr (False, ''Invalid password'', None), s')) \<and>
      ((\<forall>x\<in>set (pre @ post). entry_rejected L c x) \<longrightarrow>
         (\<forall>pw2. recover_account L s' u c pw2 = (Inr (False, ''Invalid recovery code'', None), s')))"
proof -
  from recover_after [OF assms] obtain pre e post mk a' sl emk where r:
    "recovery_data a = pre @ e # post" "\<forall>x\<in>set pre. entry_rejected L c x"
    "open_entry L c e = Inr mk" "k = Some mk"
    "users s' = (users s)(u \<mapsto> a')" "recovery_data a' = pre @ post"
    "b64decode L (salt a') = Some sl" "b64decode L (encrypted_master_key a') = Some emk"
    "login L s' u npw = (Inr (True, ''Login successful'', Some mk), s')"
    by blast
  have u: "users s' u = Some a'"
    by (simp add: r(5))
  have old: "\<forall>oldpw x. decrypt_data L emk (derive_key L oldpw sl 100000) = Inl x \<longrightarrow>
         login L s' u oldpw = (Inr (False, ''Invalid password'', None), s')"
    by (simp add: login_known [OF u r(7,8)])
  have again: "(\<forall>x\<in>set (pre @ post). entry_rejected L c x) \<longrightarrow>
         (\<forall>pw2. recover_account L s' u c pw2 = (Inr (False, ''Invalid recovery code'', None), s'))"
    using u r(6) by (simp add: recover_account_def scan_all_rejected)
  from r(1-4) u r(6-9) old again show ?thesis
    by blast
qed

text \<open>
  C2. For an account whose master key is \<open>mk\<close> (\<open>login\<close> with the old master password
  returns it) and whose recovery entries hold \<open>mk\<close> (whatever entry the code opens, it
  yields \<open>mk\<close>): a successful \<open>recover_account\<close> returns \<open>mk\<close>, \<open>login\<close> with the new
  master password returns \<open>mk\<close>, the stored service passwords are untouched, and
  \<open>get_password\<close> under the new master password answers for every service what it
  answered under the old one before the recovery.
\<close>

theorem recovery_preserves_vault:
  assumes "gcm_ok L" and "kdf_ok L" and "b64_ok L" and "users s u = Some a"
    and "login L s u oldpw = (Inr (True, m0, Some mk), s)"
    and "\<forall>e\<in>set (recovery_data a). \<forall>x. open_entry L c e = Inr x \<longrightarrow> x = mk"
    and "recover_account L s u c npw = (Inr (True, m, k), s')"
  shows "k = Some mk \<and>
     login L s' u npw = (Inr (True, ''Login successful'', Some mk), s') \<and>
     (\<exists>a'. users s' = (users s)(u \<mapsto> a') \<and> passwords a' = passwords a) \<and>
     (\<forall>svc. fst (get_password L s' u npw svc) = fst (get_password L s u oldpw svc))"
proof -
  from recover_after [OF assms(1,2,3,4,7)] obtain pre e post mk' a' where r:
    "recovery_data a = pre @ e # post" "open_entry L c e = Inr mk'" "k = Some mk'"
    "users s' = (users s)(u \<mapsto> a')" "passwords a' = passwords a"
    "login L s' u npw = (Inr (True, ''Login successful'', Some mk'), s')"
    by blast
  have "e \<in> set (recovery_data a)"
    by (simp add: r(1))
  with assms(6) r(2) have mk: "mk' = mk"
    by blast
  have u: "users s' u = Some a'"
    by (simp add: r(4))
  have "fst (get_password L s' u npw svc) = fst (get_password L s u oldpw svc)" for svc
    using r(6) by (simp add: get_password_known [OF u] get_password_known [OF assms(4,5)] mk r(5))
  with r(3,4,5,6) mk show ?thesis
    by blast
qed

lemma bob_entries:
  "recovery_data bob_account =
     [sample_entry ''11111111'' (replicate 16 3) (replicate 16 4) bob_key,
      sample_entry ''22222222'' (replicate 16 6) (replicate 16 7) bob_key]"
  by (simp add: bob_account_def)

lemma bob_first_opens:
  "open_entry sample_lib ''11111111''
     (sample_entry ''11111111'' (replicate 16 3) (replicate 16 4) bob_key) = Inr bob_key"
  by (simp add: sample_entry_opens)

lemma bob_second_opens:
  "open_entry sample_lib ''22222222''
     (sample_entry ''22222222'' (replicate 16 6) (replicate 16 7) bob_key) = Inr bob_key"
  by (simp add: sample_entry_opens)

lemma rejected_not_open: "entry_rejected L c e \<Longrightarrow> open_entry L c e \<noteq> Inr x"
  by (auto simp: entry_rejected_def)

lemma bob_recovered:
  "recover_account sample_lib bob_world ''bob'' ''11111111'' ''newpw''
     = (Inr (True, ''Account recovered successfully'', Some bob_key), bob_recovered_world)"
proof -
  have "recovery_data bob_account = [] @
      sample_entry ''11111111'' (replicate 16 3) (replicate 16 4) bob_key #
      [sample_entry ''22222222'' (replicate 16 6) (replicate 16 7) bob_key]"
    by (simp add: bob_entries)
  from recover_first_hit [OF sample_gcm_ok sample_kdf_ok bob_lookup this _ bob_first_opens,
      of "''newpw''"]
  show ?thesis
    by (auto simp: bob_recovered_world_def)
qed

theorem recovery_one_shot_witness:
  "recover_account sample_lib bob_world ''bob'' ''11111111'' ''newpw''
     = (Inr (True, ''Account recovered successfully'', Some bob_key), bob_recovered_world) \<and>
   login sample_lib bob_recovered_world ''bob'' ''newpw''
     = (Inr (True, ''Login successful'', Some bob_key), bob_recovered_world) \<and>
   login sample_lib bob_recovered_world ''bob'' ''hunter2''
     = (Inr (False, ''Invalid password'', None), bob_recovered_world) \<and>
   recover_account sample_lib bob_recovered_world ''bob'' ''11111111'' ''again''
     = (Inr (False, ''Invalid recovery code'', None), bob_recovered_world)"
proof -
  from recovery_one_shot [OF sample_gcm_ok sample_kdf_ok sample_b64_ok bob_lookup bob_recovered]
  obtain pre e post mk a' sl emk where r:
    "recovery_data bob_account = pre @ e # post"
    "\<forall>x\<in>set pre. entry_rejected sample_lib ''11111111'' x"
    "open_entry sample_lib ''11111111'' e = Inr mk" "Some bob_key = Some mk"
    "login sample_lib bob_recovered_world ''bob'' ''newpw'' = (Inr (True, ''Login successful'', Some mk), bob_recovered_world)"
    "b64decode sample_lib (salt a') = Some sl"
    "b64decode sample_lib (encrypted_master_key a') = Some emk"
    "users bob_recovered_world ''bob'' = Some a'"
    "\<forall>oldpw x. decrypt_data sample_lib emk (derive_key sample_lib oldpw sl 100000) = Inl x \<longrightarrow>
       login sample_lib bob_recovered_world ''bob'' oldpw = (Inr (False, ''Invalid password'', None), bob_recovered_world)"
    "(\<forall>x\<in>set (pre @ post). entry_rejected sample_lib ''11111111'' x) \<longrightarrow>
       (\<forall>pw2. recover_account sample_lib bob_recovered_world ''bob'' ''11111111'' pw2
          = (Inr (False, ''Invalid recovery code'', None), bob_recovered_world))"
    by blast
  have pre: "pre = []"
  proof (cases pre)
    case Nil
    then show ?thesis by simp
  next
    case (Cons x xs)
    with r(1) have "x = sample_entry ''11111111'' (replicate 16 3) (replicate 16 4) bob_key"
      by (simp add: bob_entries)
    moreover have "entry_rejected sample_lib ''11111111'' x"
      using r(2) Cons by simp
    ultimately show ?thesis
      using rejected_not_open bob_first_opens by metis
  qed
  with r(1) have post: "post = [sample_entry ''22222222'' (replicate 16 6) (replicate 16 7) bob_key]"
    by (simp add: bob_entries)
  have "\<forall>x\<in>set (pre @ post). entry_rejected sample_lib ''11111111'' x"
    by (simp add: pre post bob_second_rejected)
  with r(10) have again: "recover_account sample_lib bob_recovered_world ''bob'' ''11111111'' ''again''
      = (Inr (False, ''Invalid recovery code'', None), bob_recovered_world)"
    by blast
  from login_success [OF r(5)] r(6,7,8)
  have new: "decrypt_data sample_lib emk (derive_key sample_lib ''newpw'' sl 100000) = Inr mk"
    by auto
  have "hd (derive_key sample_lib ''hunter2'' sl 100000) \<noteq> hd (derive_key sample_lib ''newpw'' sl 100000)"
    by (simp add: sample_key_hd char_to_byte_def)
  from sample_decrypt_other_key [OF new derive_key_ok [OF sample_kdf_ok] this]
  have "decrypt_data sample_lib emk (derive_key sample_lib ''hunter2'' sl 100000) = Inl InvalidTag" .
  with r(9) have old: "login sample_lib bob_recovered_world ''bob'' ''hunter2''
      = (Inr (False, ''Invalid password'', None), bob_recovered_world)"
    by blast
  from bob_recovered r(4,5) old again show ?thesis
    by simp
qed

lemma bob_github_lookup:
  "\<exists>ep. users bob_github_world ''bob'' = Some (bob_account\<lparr>passwords := [''github'' \<mapsto> ep]\<rparr>)"
proof -
  have "aes_key_ok bob_key"
    by (simp add: aes_key_ok_def bob_key_def)
  from add_password_ok [OF sample_gcm_ok bob_lookup bob_login this, of "''github''" "''s3cr3t''"]
  obtain ep t1 where w: "bob_github_world = save_database (bob_world\<lparr>entropy := t1, users := (users bob_world)(''bob'' \<mapsto>
          bob_account\<lparr>passwords := (passwords bob_account)(''github'' \<mapsto> b64encode sample_lib ep)\<rparr>)\<rparr>)"
    by (auto simp: bob_github_world_def)
  have pe: "passwords bob_account = Map.empty"
    by (simp add: bob_account_def)
  have "users bob_github_world ''bob'' = Some (bob_account\<lparr>passwords := [''github'' \<mapsto> b64encode sample_lib ep]\<rparr>)"
    by (subst w) (simp add: save_database_def pe)
  then show ?thesis
    by blast
qed

lemma bob_github_get:
  "get_password sample_lib bob_github_world ''bob'' ''hunter2'' ''github''
     = (Inr (True, ''Password for github'', Some ''s3cr3t''), bob_github_world)"
  using add_then_get_aux [OF sample_gcm_ok sample_b64_ok sample_utf8_ok bob_login bob_key_length,
      of "''github''" "''s3cr3t''"]
  by (auto simp: bob_github_world_def)

theorem recovery_preserves_vault_witness:
  "get_password sample_lib bob_github_world ''bob'' ''hunter2'' ''github''
     = (Inr (True, ''Password for github'', Some ''s3cr3t''), bob_github_world) \<and>
   fst (recover_account sample_lib bob_github_world ''bob'' ''22222222'' ''newpw'')
     = Inr (True, ''Account recovered successfully'', Some bob_key) \<and>
   fst (get_password sample_lib (snd (recover_account sample_lib bob_github_world ''bob'' ''22222222'' ''newpw''))
          ''bob'' ''newpw'' ''github'')
     = Inr (True, ''Password for github'', Some ''s3cr3t'')"
proof -
  from bob_github_lookup obtain ep where u: "users bob_github_world ''bob'' = Some (bob_account\<lparr>passwords := [''github'' \<mapsto> ep]\<rparr>)"
    by blast
  let ?a = "bob_account\<lparr>passwords := [''github'' \<mapsto> ep]\<rparr>"
  let ?e1 = "sample_entry ''11111111'' (replicate 16 3) (replicate 16 4) bob_key"
  let ?e2 = "sample_entry ''22222222'' (replicate 16 6) (replicate 16 7) bob_key"
  have l: "login sample_lib bob_github_world ''bob'' ''hunter2''
      = (Inr (True, ''Login successful'', Some bob_key), bob_github_world)"
    using login_known [OF u, of sample_lib "replicate 16 1"
        "sample_seal ''hunter2'' (replicate 16 1) (replicate 16 2) bob_key" "''hunter2''"]
      bob_salt bob_envelope
    by (simp add: sample_seal_opens)
  have rd: "recovery_data ?a = [?e1] @ ?e2 # []"
    by (simp add: bob_entries)
  have rej: "\<forall>x\<in>set [?e1]. entry_rejected sample_lib ''22222222'' x"
    by (simp add: bob_first_rejected)
  from recover_first_hit [OF sample_gcm_ok sample_kdf_ok u rd rej bob_second_opens, of "''newpw''"]
  obtain s' where rec: "recover_account sample_lib bob_github_world ''bob'' ''22222222'' ''newpw''
      = (Inr (True, ''Account recovered successfully'', Some bob_key), s')"
    by blast
  have esc: "\<forall>e\<in>set (recovery_data ?a). \<forall>x. open_entry sample_lib ''22222222'' e = Inr x \<longrightarrow> x = bob_key"
    using rejected_not_open [OF bob_first_rejected] bob_second_opens
    by (simp add: bob_entries)
  from recovery_preserves_vault [OF sample_gcm_ok sample_kdf_ok sample_b64_ok u l esc rec]
  have "fst (get_password sample_lib s' ''bob'' ''newpw'' ''github'')
      = fst (get_password sample_lib bob_github_world ''bob'' ''hunter2'' ''github'')"
    by blast
  with rec bob_github_get show ?thesis
    by simp
qed

text \<open>
  C3 as stated fails. With a random source whose draws are all multiples of ten, the ten
  codes of alice are all \<open>00000000\<close>, each with its own salt. After a recovery with that
  code that sets the master password she had before, \<open>login\<close> with the old master password
  succeeds, and a second recovery with the same code succeeds too, through the next entry.
\<close>

lemma list_all2_replicate:
  "list_all2 P (replicate n c) es \<Longrightarrow> \<forall>e\<in>set es. P c e"
  by (auto simp: list_all2_conv_all_nth in_set_conv_nth)

lemma alice_created:
  "\<exists>a e0 e1 rest. users alice_world ''alice'' = Some a \<and> recovery_data a = e0 # e1 # rest \<and>
     open_entry sample_lib ''00000000'' e0 = Inr alice_key \<and>
     open_entry sample_lib ''00000000'' e1 = Inr alice_key"
proof -
  from create_account_ok [OF sample_gcm_ok sample_kdf_ok sample_b64_ok alice_absent, of "''pw1''"]
    tape0_tens
  obtain codes a mk s' where c:
    "create_account sample_lib empty_world ''alice'' ''pw1''
       = (Inr (True, ''Account created successfully'', codes), s')"
    "users s' = (users empty_world)(''alice'' \<mapsto> a)" "length (recovery_data a) = 10"
    "list_all2 (\<lambda>c e. open_entry sample_lib c e = Inr mk) codes (recovery_data a)"
    "mk = fst (urandom 32 (snd (generate_salt 16 (entropy empty_world))))"
    "codes = replicate 10 ''00000000''"
    by blast
  have s': "s' = alice_world"
    using c(1) by (simp add: alice_world_def)
  have mk: "mk = alice_key"
    by (simp add: c(5) alice_key_def empty_world_def)
  have all: "\<forall>e\<in>set (recovery_data a). open_entry sample_lib ''00000000'' e = Inr alice_key"
    using list_all2_replicate [of "\<lambda>c e. open_entry sample_lib c e = Inr mk" 10 "''00000000''" "recovery_data a"]
      c(4,6) mk by simp
  obtain e0 e1 rest where rd: "recovery_data a = e0 # e1 # rest"
    using c(3) by (cases "recovery_data a"; cases "tl (recovery_data a)") auto
  with all c(2) s' show ?thesis
    by auto
qed

lemma recovery_reuse:
  assumes "gcm_ok L" and "kdf_ok L" and "b64_ok L" and "users s u = Some a"
    and "recovery_data a = e0 # e1 # rest"
    and "open_entry L c e0 = Inr mk" and "open_entry L c e1 = Inr mk"
  shows "\<exists>s' s''. recover_account L s u c npw
        = (Inr (True, ''Account recovered successfully'', Some mk), s') \<and>
      login L s' u npw = (Inr (True, ''Login successful'', Some mk), s') \<and>
      recover_account L s' u c pw2 = (Inr (True, ''Account recovered successfully'', Some mk), s'')"
proof -
  have rd: "recovery_data a = [] @ e0 # (e1 # rest)"
    by (simp add: assms(5))
  from recover_first_hit [OF assms(1,2,4) rd _ assms(6), of npw]
  obtain s' where rec: "recover_account L s u c npw
      = (Inr (True, ''Account recovered successfully'', Some mk), s')"
    by auto
  from recover_after [OF assms(1,2,3,4) rec] obtain pre e post a' where r:
    "recovery_data a = pre @ e # post" "\<forall>x\<in>set pre. entry_rejected L c x"
    "users s' = (users s)(u \<mapsto> a')" "recovery_data a' = pre @ post"
    "login L s' u npw = (Inr (True, ''Login successful'', Some mk), s')"
    by auto
  have pre: "pre = []"
  proof (cases pre)
    case Nil
    then show ?thesis by simp
  next
    case (Cons x xs)
    with r(1) have "x = e0"
      by (simp add: assms(5))
    moreover have "entry_rejected L c x"
      using r(2) Cons by simp
    ultimately show ?thesis
      using rejected_not_open assms(6) by metis
  qed
  with r(1,4) have rd': "recovery_data a' = [] @ e1 # rest"
    by (simp add: assms(5))
  have u': "users s' u = Some a'"
    by (simp add: r(3))
  from recover_first_hit [OF assms(1,2) u' rd' _ assms(7), of pw2]
  obtain s'' where "recover_account L s' u c pw2
      = (Inr (True, ''Account recovered successfully'', Some mk), s'')"
    by auto
  with rec r(5) show ?thesis
    by blast
qed

theorem recovery_one_shot_counterexample:
  "fst (recover_account sample_lib alice_world ''alice'' ''00000000'' ''pw1'')
     = Inr (True, ''Account recovered successfully'', Some alice_key) \<and>
   fst (login sample_lib alice_recovered_world ''alice'' ''pw1'')
     = Inr (True, ''Login successful'', Some alice_key) \<and>
   fst (recover_account sample_lib alice_recovered_world ''alice'' ''00000000'' ''pw2'')
     = Inr (True, ''Account recovered successfully'', Some alice_key)"
proof -
  from alice_created obtain a e0 e1 rest where a: "users alice_world ''alice'' = Some a"
    "recovery_data a = e0 # e1 # rest"
    "open_entry sample_lib ''00000000'' e0 = Inr alice_key"
    "open_entry sample_lib ''00000000'' e1 = Inr alice_key"
    by blast
  from recovery_reuse [OF sample_gcm_ok sample_kdf_ok sample_b64_ok a, of "''pw1''" "''pw2''"]
  show ?thesis
    by (auto simp: alice_recovered_world_def)
qed

end
